theory Spec2Isabelle
  imports Complex_Main "HOL-Library.Word" "HOL-Library.Sublist"
begin

section \<open>JavaScript strings\<close>

text \<open>
  A JavaScript string is a sequence of UTF-16 code units. The two scripts
  (\<^verbatim>\<open>git-clean.js\<close>, \<^verbatim>\<open>git-cleanup.js\<close>) only compare, search, trim and split strings, so a
  string is a list of 16-bit words. \<open>js\<close> turns an ASCII literal into its code units.
\<close>

type_synonym jschar = "16 word"
type_synonym jsstr = "jschar list"

definition js :: "string \<Rightarrow> jsstr" where
  "js s = map of_char s"

definition NL :: jschar where
  "NL = 0x0A"

definition SP :: jschar where
  "SP = 0x20"

text \<open>
  \<^verbatim>\<open>String.prototype.trim\<close> strips the code points of ECMAScript's WhiteSpace and
  LineTerminator productions: TAB, LF, VT, FF, CR, SPACE, NBSP, U+1680, U+2000..U+200A,
  U+2028, U+2029, U+202F, U+205F, U+3000 and U+FEFF.
\<close>

definition is_ws :: "jschar \<Rightarrow> bool" where
  "is_ws c = (c = 0x09 \<or> c = 0x0A \<or> c = 0x0B \<or> c = 0x0C \<or> c = 0x0D \<or> c = 0x20 \<or>
     c = 0xA0 \<or> c = 0x1680 \<or> c = 0x2000 \<or> c = 0x2001 \<or> c = 0x2002 \<or> c = 0x2003 \<or>
     c = 0x2004 \<or> c = 0x2005 \<or> c = 0x2006 \<or> c = 0x2007 \<or> c = 0x2008 \<or> c = 0x2009 \<or>
     c = 0x200A \<or> c = 0x2028 \<or> c = 0x2029 \<or> c = 0x202F \<or> c = 0x205F \<or> c = 0x3000 \<or>
     c = 0xFEFF)"

definition trim :: "jsstr \<Rightarrow> jsstr" where
  "trim s = rev (dropWhile is_ws (rev (dropWhile is_ws s)))"

text \<open>
  \<^verbatim>\<open>s.split(sep)\<close> for a separator of one code unit, as both scripts call it
  (\<^verbatim>\<open>'\n'\<close> and \<^verbatim>\<open>' '\<close>): the pieces between the occurrences of the separator; the
  empty string gives one empty piece. The result is never empty, so the last case
  branch is never taken (lemma \<open>split_not_Nil\<close>) and \<^verbatim>\<open>[0]\<close> is always defined.
\<close>

fun split :: "'a \<Rightarrow> 'a list \<Rightarrow> 'a list list" where
  "split sep [] = [[]]"
| "split sep (c # cs) =
     (if c = sep then [] # split sep cs
      else (case split sep cs of
              piece # pieces \<Rightarrow> (c # piece) # pieces
            | [] \<Rightarrow> [[c]]))"

text \<open>\<^verbatim>\<open>s.includes(needle)\<close>: the needle starts at some index of \<open>s\<close>.\<close>

fun str_includes :: "'a list \<Rightarrow> 'a list \<Rightarrow> bool" where
  "str_includes [] needle = (needle = [])"
| "str_includes (c # cs) needle = (prefix needle (c # cs) \<or> str_includes cs needle)"

definition gone_marker :: jsstr where
  "gone_marker = js '': gone]''"

definition not_fully_merged :: jsstr where
  "not_fully_merged = js ''not fully merged''"

definition dry_run_flag :: jsstr where
  "dry_run_flag = js ''--dry-run''"


section \<open>Values read from the configuration file\<close>

text \<open>
  What \<^verbatim>\<open>JSON.parse\<close> returns. A number is an IEEE double; no operation of the scripts
  looks at one except the truthiness test of \<^verbatim>\<open>&&\<close>. An object is the list of its own
  properties, each name once.
\<close>

datatype js_number = Finite rat | PosInfinity | NegInfinity | NaN

datatype json =
    JNull
  | JBool bool
  | JNum js_number
  | JStr jsstr
  | JArr "json list"
  | JObj "(jsstr \<times> json) list"

text \<open>
  The error object a \<^verbatim>\<open>catch\<close> receives: its \<^verbatim>\<open>message\<close>, and its \<^verbatim>\<open>stderr\<close>
  property (a Buffer, which is truthy, or absent).
\<close>

record js_error =
  message :: jsstr
  stderr :: "jsstr option"

definition type_error_null :: js_error where
  "type_error_null =
     \<lparr>message = js ''Cannot read properties of null (reading '' @ [0x27]
                 @ js ''protectedBranches'' @ [0x27] @ js '')'',
      stderr = None\<rparr>"

text \<open>A value's truthiness; \<open>None\<close> stands for \<^verbatim>\<open>undefined\<close>.\<close>

fun truthy :: "json option \<Rightarrow> bool" where
  "truthy None = False"
| "truthy (Some JNull) = False"
| "truthy (Some (JBool b)) = b"
| "truthy (Some (JNum n)) = (n \<noteq> Finite 0 \<and> n \<noteq> NaN)"
| "truthy (Some (JStr s)) = (s \<noteq> [])"
| "truthy (Some (JArr xs)) = True"
| "truthy (Some (JObj kvs)) = True"

fun Array_isArray :: "json option \<Rightarrow> bool" where
  "Array_isArray (Some (JArr xs)) = True"
| "Array_isArray v = False"

fun elements :: "json option \<Rightarrow> json list" where
  "elements (Some (JArr xs)) = xs"
| "elements v = []"

text \<open>
  \<^verbatim>\<open>config.protectedBranches\<close>: a TypeError on \<^verbatim>\<open>null\<close>, the property's value on an
  object that has it, \<^verbatim>\<open>undefined\<close> on every other value (no boolean, number,
  string or array has a property of this name).
\<close>

fun get_protectedBranches :: "json \<Rightarrow> js_error + json option" where
  "get_protectedBranches JNull = Inl type_error_null"
| "get_protectedBranches (JObj kvs) = Inr (map_of kvs (js ''protectedBranches''))"
| "get_protectedBranches v = Inr None"


section \<open>The world outside the scripts\<close>

text \<open>
  The scripts talk to git (\<^verbatim>\<open>execFileSync('git', args)\<close>), to the user (the two
  \<^verbatim>\<open>inquirer\<close> prompts), to the file system and to the console. The outside world is
  a state \<open>'w\<close> of any type; a system \<open>S\<close> says how each call answers in a world and
  what world it leaves. Every call and every console line is recorded, in order, as an
  event; a prompt is recorded with its answer. A prompt is answered (the process waits until the user responds); the dynamic
  imports of \<^verbatim>\<open>inquirer\<close> and \<^verbatim>\<open>chalk\<close> succeed, and colours are left out.
\<close>

record 'w sys =
  execFileSync :: "jsstr list \<Rightarrow> 'w \<Rightarrow> (js_error + jsstr) \<times> 'w"
  prompt_checkbox :: "jsstr list \<Rightarrow> 'w \<Rightarrow> jsstr list \<times> 'w"
  prompt_confirm :: "jsstr \<Rightarrow> 'w \<Rightarrow> bool \<times> 'w"
  existsSync :: "'w \<Rightarrow> bool"
  readFileSync :: "'w \<Rightarrow> js_error + jsstr"
  JSON_parse :: "jsstr \<Rightarrow> js_error + json"

datatype level = LOG | WARN | ERROR

datatype msg =
    MsgDryRunBanner
  | MsgNotARepo
  | MsgFetching
  | MsgFetchFailed
  | MsgStderr jsstr
  | MsgCfgLoaded
  | MsgCfgDefault
  | MsgCfgError jsstr
  | MsgCfgFallback
  | MsgClean
  | MsgCancelled
  | MsgBlank
  | MsgWouldDelete jsstr
  | MsgDeleted jsstr
  | MsgUnmerged jsstr
  | MsgWouldForceDelete jsstr
  | MsgForceDeleted jsstr
  | MsgForceFailed jsstr
  | MsgForceFailedWith jsstr jsstr
  | MsgSkipped jsstr
  | MsgDeleteFailed jsstr
  | MsgDeleteFailedWith jsstr jsstr
  | MsgComplete
  | MsgUnexpected js_error

datatype event =
    Git "jsstr list"
  | Console level msg
  | Checkbox "jsstr list" "jsstr list"
  | Confirm jsstr bool

type_synonym 'w st = "'w \<times> event list"

definition console :: "level \<Rightarrow> msg \<Rightarrow> 'w st \<Rightarrow> 'w st" where
  "console l m st = (fst st, snd st @ [Console l m])"

definition run_git :: "'w sys \<Rightarrow> jsstr list \<Rightarrow> 'w st \<Rightarrow> (js_error + jsstr) \<times> 'w st" where
  "run_git S args st =
     (case execFileSync S args (fst st) of
        (r, w') \<Rightarrow> (r, (w', snd st @ [Git args])))"

definition ask_checkbox :: "'w sys \<Rightarrow> jsstr list \<Rightarrow> 'w st \<Rightarrow> jsstr list \<times> 'w st" where
  "ask_checkbox S choices st =
     (case prompt_checkbox S choices (fst st) of
        (answer, w') \<Rightarrow> (answer, (w', snd st @ [Checkbox choices answer])))"

definition ask_confirm :: "'w sys \<Rightarrow> jsstr \<Rightarrow> 'w st \<Rightarrow> bool \<times> 'w st" where
  "ask_confirm S branch st =
     (case prompt_confirm S branch (fst st) of
        (answer, w') \<Rightarrow> (answer, (w', snd st @ [Confirm branch answer])))"

definition log_stderr :: "js_error \<Rightarrow> 'w st \<Rightarrow> 'w st" where
  "log_stderr e st = (case stderr e of Some s \<Rightarrow> console ERROR (MsgStderr s) st | None \<Rightarrow> st)"

definition rev_parse_args :: "jsstr list" where
  "rev_parse_args = [js ''rev-parse'', js ''--is-inside-work-tree'']"

definition fetch_args :: "jsstr list" where
  "fetch_args = [js ''fetch'', js ''-p'']"

definition branch_vv_args :: "jsstr list" where
  "branch_vv_args = [js ''branch'', js ''-vv'']"

definition delete_args :: "jsstr \<Rightarrow> jsstr list" where
  "delete_args branch = [js ''branch'', js ''-d'', branch]"

definition force_delete_args :: "jsstr \<Rightarrow> jsstr list" where
  "force_delete_args branch = [js ''branch'', js ''-D'', branch]"

text \<open>
  How an async \<^verbatim>\<open>main()\<close> ends: \<^verbatim>\<open>process.exit(n)\<close> was called, the function returned
  (its promise resolves and the process ends with status 0), or an exception left it
  (its promise rejects).
\<close>

datatype outcome = Exited nat | Returned | Rejected js_error

text \<open>
  The body of a \<^verbatim>\<open>.catch\<close> handler, statement by statement: \<open>Do f\<close> runs \<open>f\<close> now;
  \<open>Later f\<close> is \<^verbatim>\<open>promise.then(f)\<close>, which queues \<open>f\<close> for after the running job;
  \<open>ProcessExit n\<close> ends the process at once, and what is still queued never runs.
\<close>

datatype 'w stmt = Do "'w st \<Rightarrow> 'w st" | Later "'w st \<Rightarrow> 'w st" | ProcessExit nat

fun run_job :: "'w stmt list \<Rightarrow> ('w st \<Rightarrow> 'w st) list \<Rightarrow> 'w st \<Rightarrow> nat \<times> 'w st" where
  "run_job [] queued st = (0, fold (\<lambda>f s. f s) queued st)"
| "run_job (Do f # rest) queued st = run_job rest queued (f st)"
| "run_job (Later f # rest) queued st = run_job rest (queued @ [f]) st"
| "run_job (ProcessExit n # rest) queued st = (n, st)"


section \<open>git-clean.js\<close>

definition clean_protectedBranches :: "jsstr list" where
  "clean_protectedBranches = [js ''main'', js ''master'', js ''develop'', js ''dev'']"

definition clean_goneBranches :: "jsstr \<Rightarrow> jsstr list" where
  "clean_goneBranches branchesOutput =
     filter (\<lambda>branch. \<not> (branch \<in> set clean_protectedBranches))
       (map (\<lambda>line. hd (split SP (trim line)))
         (filter (\<lambda>line. str_includes line gone_marker)
           (split NL branchesOutput)))"

definition clean_delete_branch :: "'w sys \<Rightarrow> jsstr \<Rightarrow> 'w st \<Rightarrow> 'w st" where
  "clean_delete_branch S branch st =
     (case run_git S (delete_args branch) st of
        (Inr out, st1) \<Rightarrow> console LOG (MsgDeleted branch) st1
      | (Inl err, st1) \<Rightarrow>
          if str_includes (message err) not_fully_merged then
            (case ask_confirm S branch (console WARN (MsgUnmerged branch) st1) of
               (forceDelete, st2) \<Rightarrow>
                 if forceDelete then
                   (case run_git S (force_delete_args branch) st2 of
                      (Inr out, st3) \<Rightarrow> console LOG (MsgForceDeleted branch) st3
                    | (Inl forceErr, st3) \<Rightarrow>
                        console ERROR (MsgForceFailedWith branch (message forceErr)) st3)
                 else console LOG (MsgSkipped branch) st2)
          else console ERROR (MsgDeleteFailedWith branch (message err)) st1)"

fun clean_delete_all :: "'w sys \<Rightarrow> jsstr list \<Rightarrow> 'w st \<Rightarrow> 'w st" where
  "clean_delete_all S [] st = st"
| "clean_delete_all S (branch # rest) st =
     clean_delete_all S rest (clean_delete_branch S branch st)"

definition clean_main :: "'w sys \<Rightarrow> 'w st \<Rightarrow> outcome \<times> 'w st" where
  "clean_main S st0 =
     (case run_git S rev_parse_args st0 of
        (Inl e, st1) \<Rightarrow> (Exited 1, console ERROR MsgNotARepo st1)
      | (Inr out1, st1) \<Rightarrow>
          (case run_git S fetch_args (console LOG MsgFetching st1) of
             (Inl e, st2) \<Rightarrow> (Exited 1, console ERROR MsgFetchFailed st2)
           | (Inr out2, st2) \<Rightarrow>
               (case run_git S branch_vv_args st2 of
                  (Inl e, st3) \<Rightarrow> (Rejected e, st3)
                | (Inr branchesOutput, st3) \<Rightarrow>
                    (let goneBranches = clean_goneBranches branchesOutput in
                     if goneBranches = [] then (Exited 0, console LOG MsgClean st3)
                     else
                       (case ask_checkbox S goneBranches st3 of
                          (branchesToDelete, st4) \<Rightarrow>
                            if branchesToDelete = [] then
                              (Exited 0, console LOG MsgCancelled st4)
                            else
                              (Returned,
                               console LOG MsgComplete
                                 (clean_delete_all S branchesToDelete
                                   (console LOG MsgBlank st4))))))))"

text \<open>
  \<^verbatim>\<open>main().catch(err => { console.error(..., err); process.exit(1); })\<close>, and the exit
  status of the process.
\<close>

definition clean_catch :: "js_error \<Rightarrow> 'w stmt list" where
  "clean_catch err = [Do (console ERROR (MsgUnexpected err)), ProcessExit 1]"

definition clean_run :: "'w sys \<Rightarrow> 'w \<Rightarrow> nat \<times> 'w st" where
  "clean_run S w =
     (case clean_main S (w, []) of
        (Exited n, st) \<Rightarrow> (n, st)
      | (Returned, st) \<Rightarrow> (0, st)
      | (Rejected err, st) \<Rightarrow> run_job (clean_catch err) [] st)"


section \<open>git-cleanup.js\<close>

definition cleanup_defaults :: "json list" where
  "cleanup_defaults =
     [JStr (js ''main''), JStr (js ''master''), JStr (js ''develop''), JStr (js ''dev''),
      JStr (js ''prod''), JStr (js ''production'')]"

text \<open>The \<^verbatim>\<open>try\<close> block of \<^verbatim>\<open>getProtectedBranches\<close>: what it returns, or what it throws.\<close>

definition getProtectedBranches_try :: "'w sys \<Rightarrow> 'w st \<Rightarrow> (js_error + json list) \<times> 'w st" where
  "getProtectedBranches_try S st =
     (if existsSync S (fst st) then
        (case readFileSync S (fst st) of
           Inl e \<Rightarrow> (Inl e, st)
         | Inr configFile \<Rightarrow>
             (case JSON_parse S configFile of
                Inl e \<Rightarrow> (Inl e, st)
              | Inr config \<Rightarrow>
                  (case get_protectedBranches config of
                     Inl e \<Rightarrow> (Inl e, st)
                   | Inr field \<Rightarrow>
                       if truthy field \<and> Array_isArray field then
                         (Inr (elements field), console LOG MsgCfgLoaded st)
                       else (Inr cleanup_defaults, console LOG MsgCfgDefault st))))
      else (Inr cleanup_defaults, console LOG MsgCfgDefault st))"

definition getProtectedBranches :: "'w sys \<Rightarrow> 'w st \<Rightarrow> json list \<times> 'w st" where
  "getProtectedBranches S st =
     (case getProtectedBranches_try S st of
        (Inr branches, st1) \<Rightarrow> (branches, st1)
      | (Inl error, st1) \<Rightarrow>
          (cleanup_defaults,
           console LOG MsgCfgFallback (console ERROR (MsgCfgError (message error)) st1)))"

text \<open>
  \<^verbatim>\<open>protectedBranches.includes(branch)\<close> compares with SameValueZero: an element equals
  the string \<open>branch\<close> only if it is that string.
\<close>

definition cleanup_goneBranches :: "json list \<Rightarrow> jsstr \<Rightarrow> jsstr list" where
  "cleanup_goneBranches protectedBranches branchesOutput =
     filter (\<lambda>branch. \<not> (JStr branch \<in> set protectedBranches))
       (map (\<lambda>line. hd (split SP (trim line)))
         (filter (\<lambda>line. str_includes line gone_marker)
           (split NL branchesOutput)))"

text \<open>The two \<^verbatim>\<open>try\<close> blocks of the loop body: the error thrown, if any.\<close>

definition cleanup_try_delete :: "'w sys \<Rightarrow> bool \<Rightarrow> jsstr \<Rightarrow> 'w st \<Rightarrow> js_error option \<times> 'w st" where
  "cleanup_try_delete S isDryRun branch st =
     (if isDryRun then (None, console LOG (MsgWouldDelete branch) st)
      else
        (case run_git S (delete_args branch) st of
           (Inl err, st1) \<Rightarrow> (Some err, st1)
         | (Inr out, st1) \<Rightarrow> (None, console LOG (MsgDeleted branch) st1)))"

definition cleanup_try_force :: "'w sys \<Rightarrow> bool \<Rightarrow> jsstr \<Rightarrow> 'w st \<Rightarrow> js_error option \<times> 'w st" where
  "cleanup_try_force S isDryRun branch st =
     (if isDryRun then (None, console LOG (MsgWouldForceDelete branch) st)
      else
        (case run_git S (force_delete_args branch) st of
           (Inl forceErr, st1) \<Rightarrow> (Some forceErr, st1)
         | (Inr out, st1) \<Rightarrow> (None, console LOG (MsgForceDeleted branch) st1)))"

definition cleanup_delete_branch :: "'w sys \<Rightarrow> bool \<Rightarrow> jsstr \<Rightarrow> 'w st \<Rightarrow> 'w st" where
  "cleanup_delete_branch S isDryRun branch st =
     (case cleanup_try_delete S isDryRun branch st of
        (None, st1) \<Rightarrow> st1
      | (Some err, st1) \<Rightarrow>
          if str_includes (message err) not_fully_merged then
            (case ask_confirm S branch (console WARN (MsgUnmerged branch) st1) of
               (forceDelete, st2) \<Rightarrow>
                 if forceDelete then
                   (case cleanup_try_force S isDryRun branch st2 of
                      (None, st3) \<Rightarrow> st3
                    | (Some forceErr, st3) \<Rightarrow>
                        log_stderr forceErr (console ERROR (MsgForceFailed branch) st3))
                 else console LOG (MsgSkipped branch) st2)
          else log_stderr err (console ERROR (MsgDeleteFailed branch) st1))"

fun cleanup_delete_all :: "'w sys \<Rightarrow> bool \<Rightarrow> jsstr list \<Rightarrow> 'w st \<Rightarrow> 'w st" where
  "cleanup_delete_all S isDryRun [] st = st"
| "cleanup_delete_all S isDryRun (branch # rest) st =
     cleanup_delete_all S isDryRun rest (cleanup_delete_branch S isDryRun branch st)"

definition cleanup_main :: "'w sys \<Rightarrow> jsstr list \<Rightarrow> 'w st \<Rightarrow> outcome \<times> 'w st" where
  "cleanup_main S argv st =
     (let isDryRun = (dry_run_flag \<in> set argv);
          st0 = (if isDryRun then console LOG MsgDryRunBanner st else st) in
      case run_git S rev_parse_args st0 of
        (Inl e, st1) \<Rightarrow> (Exited 1, console ERROR MsgNotARepo st1)
      | (Inr out1, st1) \<Rightarrow>
          (case run_git S fetch_args (console LOG MsgFetching st1) of
             (Inl e, st2) \<Rightarrow> (Exited 1, log_stderr e (console ERROR MsgFetchFailed st2))
           | (Inr out2, st2) \<Rightarrow>
               (case run_git S branch_vv_args st2 of
                  (Inl e, st3) \<Rightarrow> (Rejected e, st3)
                | (Inr branchesOutput, st3) \<Rightarrow>
                    (case getProtectedBranches S st3 of
                       (protectedBranches, st4) \<Rightarrow>
                         (let goneBranches =
                                cleanup_goneBranches protectedBranches branchesOutput in
                          if goneBranches = [] then (Exited 0, console LOG MsgClean st4)
                          else
                            (case ask_checkbox S goneBranches st4 of
                               (branchesToDelete, st5) \<Rightarrow>
                                 if branchesToDelete = [] then
                                   (Exited 0, console LOG MsgCancelled st5)
                                 else
                                   (Returned,
                                    console LOG MsgComplete
                                      (cleanup_delete_all S isDryRun branchesToDelete
                                        (console LOG MsgBlank st5)))))))))"

text \<open>
  \<^verbatim>\<open>main().catch(err => { import('chalk').then(... console.error(..., err) ...);
  process.exit(1); })\<close>: the message is printed by a callback of the import's promise.
\<close>

definition cleanup_catch :: "js_error \<Rightarrow> 'w stmt list" where
  "cleanup_catch err = [Later (console ERROR (MsgUnexpected err)), ProcessExit 1]"

definition cleanup_run :: "'w sys \<Rightarrow> jsstr list \<Rightarrow> 'w \<Rightarrow> nat \<times> 'w st" where
  "cleanup_run S argv w =
     (case cleanup_main S argv (w, []) of
        (Exited n, st) \<Rightarrow> (n, st)
      | (Returned, st) \<Rightarrow> (0, st)
      | (Rejected err, st) \<Rightarrow> run_job (cleanup_catch err) [] st)"

section \<open>Reading a trace\<close>

text \<open>A mutating delete command: \<^verbatim>\<open>git branch -d <name>\<close> or \<^verbatim>\<open>git branch -D <name>\<close>.\<close>

fun is_delete :: "event \<Rightarrow> bool" where
  "is_delete (Git args) =
     (case args of
        [a, f, b] \<Rightarrow> a = js ''branch'' \<and> (f = js ''-d'' \<or> f = js ''-D'')
      | _ \<Rightarrow> False)"
| "is_delete e = False"

text \<open>The branch a non-forcing delete command is for.\<close>

fun safe_delete_target :: "event \<Rightarrow> jsstr option" where
  "safe_delete_target (Git args) =
     (case args of
        [a, f, b] \<Rightarrow> if a = js ''branch'' \<and> f = js ''-d'' then Some b else None
      | _ \<Rightarrow> None)"
| "safe_delete_target e = None"

definition safe_deletes :: "event list \<Rightarrow> jsstr list" where
  "safe_deletes tr = List.map_filter safe_delete_target tr"

text \<open>The branches for which the force-delete question was asked, in order.\<close>

fun confirm_branch :: "event \<Rightarrow> jsstr option" where
  "confirm_branch (Confirm branch answer) = Some branch"
| "confirm_branch e = None"

definition confirm_prompts :: "event list \<Rightarrow> jsstr list" where
  "confirm_prompts tr = List.map_filter confirm_branch tr"

fun is_prompt :: "event \<Rightarrow> bool" where
  "is_prompt (Checkbox choices answer) = True"
| "is_prompt (Confirm branch answer) = True"
| "is_prompt e = False"

fun is_error_line :: "event \<Rightarrow> bool" where
  "is_error_line (Console ERROR m) = True"
| "is_error_line e = False"

text \<open>
  The non-forcing delete of a branch fails in world \<open>w\<close> with a message that contains
  \<^verbatim>\<open>not fully merged\<close>.
\<close>

definition unmerged_failure :: "'w sys \<Rightarrow> jsstr \<Rightarrow> 'w \<Rightarrow> bool" where
  "unmerged_failure S branch w =
     (case fst (execFileSync S (delete_args branch) w) of
        Inl err \<Rightarrow> str_includes (message err) not_fully_merged
      | Inr out \<Rightarrow> False)"

text \<open>What a later \<^verbatim>\<open>git branch -vv\<close> would print in world \<open>w\<close>.\<close>

definition listing :: "'w sys \<Rightarrow> 'w \<Rightarrow> js_error + jsstr" where
  "listing S w = fst (execFileSync S branch_vv_args w)"


section \<open>The configuration file in the specification's words\<close>

text \<open>
  The file exists and is structurally valid: it reads and parses to an object that has
  an array-valued field \<^verbatim>\<open>protectedBranches\<close>; then the array's elements.
\<close>

definition config_array :: "'w sys \<Rightarrow> 'w \<Rightarrow> json list option" where
  "config_array S w =
     (if existsSync S w then
        (case readFileSync S w of
           Inl e \<Rightarrow> None
         | Inr contents \<Rightarrow>
             (case JSON_parse S contents of
                Inr (JObj kvs) \<Rightarrow>
                  (case map_of kvs (js ''protectedBranches'') of
                     Some (JArr xs) \<Rightarrow> Some xs
                   | _ \<Rightarrow> None)
              | _ \<Rightarrow> None))
      else None)"

text \<open>The error of reading or parsing the file, if there is one.\<close>

definition config_error :: "'w sys \<Rightarrow> 'w \<Rightarrow> js_error option" where
  "config_error S w =
     (if existsSync S w then
        (case readFileSync S w of
           Inl e \<Rightarrow> Some e
         | Inr contents \<Rightarrow>
             (case JSON_parse S contents of Inl e \<Rightarrow> Some e | Inr config \<Rightarrow> None))
      else None)"


section \<open>Example systems\<close>

text \<open>
  A small repository whose world is the list of its local branches, each with a gone
  upstream. Deleting \<^verbatim>\<open>wip\<close> without force fails as not fully merged; every other
  delete of a present branch removes it. The user ticks every candidate and answers
  the force-delete question with \<open>answer\<close>. There is no configuration file.
\<close>

definition demo_line :: "jsstr \<Rightarrow> jsstr" where
  "demo_line branch = js ''  '' @ branch @ js '' 1a2b [o/'' @ branch @ js '': gone] m'' @ [NL]"

definition unmerged_error :: js_error where
  "unmerged_error =
     \<lparr>message = js ''Command failed: git branch -d wip error: The branch wip is not fully merged.'',
      stderr = Some (js ''error: The branch wip is not fully merged.'')\<rparr>"

definition not_found_error :: js_error where
  "not_found_error =
     \<lparr>message = js ''Command failed: git branch error: branch not found.'',
      stderr = Some (js ''error: branch not found.'')\<rparr>"

definition syntax_error :: js_error where
  "syntax_error = \<lparr>message = js ''Unexpected token'', stderr = None\<rparr>"

definition demo_git :: "jsstr list \<Rightarrow> jsstr list \<Rightarrow> (js_error + jsstr) \<times> jsstr list" where
  "demo_git args w =
     (if args = branch_vv_args then (Inr (concat (map demo_line w)), w)
      else if args = delete_args (js ''wip'') then (Inl unmerged_error, w)
      else if is_delete (Git args) then
        (if args ! 2 \<in> set w then (Inr [], removeAll (args ! 2) w)
         else (Inl not_found_error, w))
      else (Inr [], w))"

definition demo_sys :: "bool \<Rightarrow> (jsstr list) sys" where
  "demo_sys answer =
     \<lparr>execFileSync = demo_git,
      prompt_checkbox = (\<lambda>choices w. (choices, w)),
      prompt_confirm = (\<lambda>branch w. (answer, w)),
      existsSync = (\<lambda>w. False),
      readFileSync = (\<lambda>w. Inl not_found_error),
      JSON_parse = (\<lambda>s. Inl syntax_error)\<rparr>"

text \<open>
  A system with a configuration file that protects \<^verbatim>\<open>main\<close> and \<^verbatim>\<open>staging\<close>, and one
  whose file does not parse.
\<close>

definition config_text :: jsstr where
  "config_text = js ''{\"protectedBranches\": [\"main\", \"staging\"]}''"

definition config_sys :: "jsstr \<Rightarrow> unit sys" where
  "config_sys contents =
     \<lparr>execFileSync = (\<lambda>args w. (Inr [], w)),
      prompt_checkbox = (\<lambda>choices w. (choices, w)),
      prompt_confirm = (\<lambda>branch w. (False, w)),
      existsSync = (\<lambda>w. True),
      readFileSync = (\<lambda>w. Inr contents),
      JSON_parse = (\<lambda>s. if s = config_text
         then Inr (JObj [(js ''protectedBranches'', JArr [JStr (js ''main''), JStr (js ''staging'')])])
         else Inl syntax_error)\<rparr>"

text \<open>
  A system in which \<^verbatim>\<open>git branch -vv\<close> throws (its output is larger than the buffer of
  \<^verbatim>\<open>execFileSync\<close>, say) and every other command succeeds.
\<close>

definition listing_error :: js_error where
  "listing_error = \<lparr>message = js ''spawnSync git ENOBUFS'', stderr = None\<rparr>"

definition broken_listing_sys :: "unit sys" where
  "broken_listing_sys =
     \<lparr>execFileSync = (\<lambda>args w. if args = branch_vv_args then (Inl listing_error, w) else (Inr [], w)),
      prompt_checkbox = (\<lambda>choices w. (choices, w)),
      prompt_confirm = (\<lambda>branch w. (False, w)),
      existsSync = (\<lambda>w. False),
      readFileSync = (\<lambda>w. Inl not_found_error),
      JSON_parse = (\<lambda>s. Inl syntax_error)\<rparr>"


section \<open>The steps before the selection prompt\<close>

text \<open>
  Steps 1 to 3 of \<^verbatim>\<open>main\<close> (the repository check, the fetch, the listing and its
  classification), run from an empty trace: how \<^verbatim>\<open>main\<close> ends there (\<open>Inl\<close>), or the
  non-empty candidate list it goes on with (\<open>Inr\<close>). These two definitions are used
  to state how a whole run decomposes (lemmas \<open>clean_main_shape\<close> and
  \<open>cleanup_main_shape\<close>).
\<close>

definition clean_listing :: "'w sys \<Rightarrow> 'w \<Rightarrow> (outcome + jsstr list) \<times> 'w st" where
  "clean_listing S w =
     (case run_git S rev_parse_args (w, []) of
        (Inl e, st1) \<Rightarrow> (Inl (Exited 1), console ERROR MsgNotARepo st1)
      | (Inr out1, st1) \<Rightarrow>
          (case run_git S fetch_args (console LOG MsgFetching st1) of
             (Inl e, st2) \<Rightarrow> (Inl (Exited 1), console ERROR MsgFetchFailed st2)
           | (Inr out2, st2) \<Rightarrow>
               (case run_git S branch_vv_args st2 of
                  (Inl e, st3) \<Rightarrow> (Inl (Rejected e), st3)
                | (Inr branchesOutput, st3) \<Rightarrow>
                    (let goneBranches = clean_goneBranches branchesOutput in
                     if goneBranches = [] then (Inl (Exited 0), console LOG MsgClean st3)
                     else (Inr goneBranches, st3)))))"

definition cleanup_listing :: "'w sys \<Rightarrow> 'w \<Rightarrow> (outcome + jsstr list) \<times> 'w st" where
  "cleanup_listing S w =
     (case run_git S rev_parse_args (w, []) of
        (Inl e, st1) \<Rightarrow> (Inl (Exited 1), console ERROR MsgNotARepo st1)
      | (Inr out1, st1) \<Rightarrow>
          (case run_git S fetch_args (console LOG MsgFetching st1) of
             (Inl e, st2) \<Rightarrow> (Inl (Exited 1), log_stderr e (console ERROR MsgFetchFailed st2))
           | (Inr out2, st2) \<Rightarrow>
               (case run_git S branch_vv_args st2 of
                  (Inl e, st3) \<Rightarrow> (Inl (Rejected e), st3)
                | (Inr branchesOutput, st3) \<Rightarrow>
                    (case getProtectedBranches S st3 of
                       (protectedBranches, st4) \<Rightarrow>
                         (let goneBranches =
                                cleanup_goneBranches protectedBranches branchesOutput in
                          if goneBranches = [] then (Inl (Exited 0), console LOG MsgClean st4)
                          else (Inr goneBranches, st4))))))"

text \<open>An event that is neither a prompt nor a delete command.\<close>

fun is_quiet :: "event \<Rightarrow> bool" where
  "is_quiet e = (\<not> is_prompt e \<and> \<not> is_delete e)"


section \<open>The classifier in the specification's words\<close>

text \<open>
  The first whitespace-delimited token of a line: what follows the leading whitespace,
  up to the next whitespace character.
\<close>

definition first_ws_token :: "jsstr \<Rightarrow> jsstr" where
  "first_ws_token line = takeWhile (\<lambda>c. \<not> is_ws c) (dropWhile is_ws line)"

text \<open>
  The first space-delimited token of the trimmed line: the trimmed line up to its first
  U+0020.
\<close>

definition first_space_token :: "jsstr \<Rightarrow> jsstr" where
  "first_space_token line = takeWhile (\<lambda>c. c \<noteq> SP) (trim line)"

text \<open>
  The candidate list as the specification states it: the lines of the text that contain
  the marker, the first whitespace-delimited token of each, without the protected names.
\<close>

definition spec_candidates :: "(jsstr \<Rightarrow> bool) \<Rightarrow> jsstr \<Rightarrow> jsstr list" where
  "spec_candidates protected text =
     filter (\<lambda>name. \<not> protected name)
       (map first_ws_token (filter (sublist gone_marker) (split NL text)))"


section \<open>Strings: facts\<close>

lemma split_not_Nil: "split sep s \<noteq> []"
  by (induction s) (auto split: list.splits)

lemmas eval_str = js_def NL_def SP_def gone_marker_def is_ws_def trim_def

lemma hd_split: "hd (split sep s) = takeWhile (\<lambda>c. c \<noteq> sep) s"
  by (induction s) (auto split: list.splits simp: split_not_Nil)

lemma str_includes_sublist: "str_includes s needle = sublist needle s"
  by (induction s) (auto simp: sublist_Cons_right)

lemma trim_decomp: "\<exists>sfx. dropWhile is_ws l = trim l @ sfx \<and> (\<forall>c\<in>set sfx. is_ws c)"
proof -
  let ?d = "dropWhile is_ws l"
  have "rev (takeWhile is_ws (rev ?d) @ dropWhile is_ws (rev ?d)) = ?d"
    by (simp only: takeWhile_dropWhile_id rev_rev_ident)
  then have "?d = trim l @ rev (takeWhile is_ws (rev ?d))"
    unfolding trim_def rev_append by simp
  moreover have "\<forall>c\<in>set (rev (takeWhile is_ws (rev ?d))). is_ws c"
    by (auto dest: set_takeWhileD)
  ultimately show ?thesis by blast
qed

lemma is_ws_SP: "is_ws SP"
  by (simp add: is_ws_def SP_def)

lemma takeWhile_stop: "(\<forall>x\<in>set t. P x) \<Longrightarrow> (r = [] \<or> \<not> P (hd r)) \<Longrightarrow> takeWhile P (t @ r) = t"
  by (cases r) (auto simp: takeWhile_append2)

lemma first_tokens_agree:
  assumes "\<forall>c\<in>set (first_space_token l). \<not> is_ws c"
  shows "first_space_token l = first_ws_token l"
proof -
  obtain sfx where d: "dropWhile is_ws l = trim l @ sfx" and sfx: "\<forall>c\<in>set sfx. is_ws c"
    using trim_decomp by blast
  define t where "t = takeWhile (\<lambda>c. c \<noteq> SP) (trim l)"
  define r where "r = dropWhile (\<lambda>c. c \<noteq> SP) (trim l)"
  have tr: "trim l = t @ r"
    by (simp add: t_def r_def)
  have r: "r = [] \<or> hd r = SP"
    unfolding r_def using hd_dropWhile[of "\<lambda>c. c \<noteq> SP" "trim l"] by blast
  have t: "\<forall>c\<in>set t. \<not> is_ws c"
    using assms by (simp add: first_space_token_def t_def)
  have stop: "r @ sfx = [] \<or> \<not> \<not> is_ws (hd (r @ sfx))"
  proof (cases r)
    case Nil
    then show ?thesis using sfx by (cases sfx) simp_all
  next
    case (Cons c cs)
    with r have "c = SP" by simp
    with Cons show ?thesis by (simp add: is_ws_SP)
  qed
  have "takeWhile (\<lambda>c. \<not> is_ws c) (t @ (r @ sfx)) = t"
    using t stop by (rule takeWhile_stop)
  moreover have "dropWhile is_ws l = t @ (r @ sfx)"
    by (simp add: d tr)
  ultimately have "takeWhile (\<lambda>c. \<not> is_ws c) (dropWhile is_ws l) = t"
    by (simp only:)
  then show ?thesis
    by (simp only: first_ws_token_def first_space_token_def t_def)
qed

lemma first_token_fun: "(\<lambda>line. hd (split SP (trim line))) = first_space_token"
  by (rule ext) (simp add: hd_split first_space_token_def)

lemma str_includes_fun: "(\<lambda>line. str_includes line needle) = sublist needle"
  by (rule ext) (simp add: str_includes_sublist)

lemma clean_goneBranches_alt:
  "clean_goneBranches text =
     filter (\<lambda>name. name \<notin> set clean_protectedBranches)
       (map first_space_token (filter (sublist gone_marker) (split NL text)))"
  by (simp add: clean_goneBranches_def first_token_fun str_includes_fun)

lemma cleanup_goneBranches_alt:
  "cleanup_goneBranches protectedBranches text =
     filter (\<lambda>name. JStr name \<notin> set protectedBranches)
       (map first_space_token (filter (sublist gone_marker) (split NL text)))"
  by (simp add: cleanup_goneBranches_def first_token_fun str_includes_fun)

lemma map_tokens_agree:
  assumes "\<forall>line\<in>set (split NL text). sublist gone_marker line \<longrightarrow>
             (\<forall>c\<in>set (first_space_token line). \<not> is_ws c)"
  shows "map first_space_token (filter (sublist gone_marker) (split NL text)) =
         map first_ws_token (filter (sublist gone_marker) (split NL text))"
proof (rule map_cong[OF refl])
  fix line
  assume "line \<in> set (filter (sublist gone_marker) (split NL text))"
  then have "line \<in> set (split NL text)" and "sublist gone_marker line"
    by simp_all
  with assms have "\<forall>c\<in>set (first_space_token line). \<not> is_ws c"
    by blast
  then show "first_space_token line = first_ws_token line"
    by (rule first_tokens_agree)
qed


section \<open>The branch classifier\<close>

text \<open>
  Claim C1, as amended. For every status-output text, both classifiers return: the
  lines of the text (split at line feeds) that contain the marker \<^verbatim>\<open>: gone]\<close>, in
  order; of each the first space-delimited token of the trimmed line; without the
  protected names. Whenever no such token holds a whitespace character (a tab, say),
  this is the list of first whitespace-delimited tokens that the specification
  describes.
\<close>

theorem goneBranches_first_space_token:
  "clean_goneBranches text =
     filter (\<lambda>name. name \<notin> set clean_protectedBranches)
       (map first_space_token (filter (sublist gone_marker) (split NL text)))
   \<and> cleanup_goneBranches protectedBranches text =
     filter (\<lambda>name. JStr name \<notin> set protectedBranches)
       (map first_space_token (filter (sublist gone_marker) (split NL text)))
   \<and> ((\<forall>line\<in>set (split NL text). sublist gone_marker line \<longrightarrow>
         (\<forall>c\<in>set (first_space_token line). \<not> is_ws c)) \<longrightarrow>
       clean_goneBranches text = spec_candidates (\<lambda>name. name \<in> set clean_protectedBranches) text
       \<and> cleanup_goneBranches protectedBranches text =
           spec_candidates (\<lambda>name. JStr name \<in> set protectedBranches) text)"
proof (intro conjI impI)
  show "clean_goneBranches text =
     filter (\<lambda>name. name \<notin> set clean_protectedBranches)
       (map first_space_token (filter (sublist gone_marker) (split NL text)))"
    by (rule clean_goneBranches_alt)
  show "cleanup_goneBranches protectedBranches text =
     filter (\<lambda>name. JStr name \<notin> set protectedBranches)
       (map first_space_token (filter (sublist gone_marker) (split NL text)))"
    by (rule cleanup_goneBranches_alt)
next
  assume h: "\<forall>line\<in>set (split NL text). sublist gone_marker line \<longrightarrow>
         (\<forall>c\<in>set (first_space_token line). \<not> is_ws c)"
  show "clean_goneBranches text =
      spec_candidates (\<lambda>name. name \<in> set clean_protectedBranches) text"
    by (simp only: clean_goneBranches_alt spec_candidates_def map_tokens_agree[OF h])
next
  assume h: "\<forall>line\<in>set (split NL text). sublist gone_marker line \<longrightarrow>
         (\<forall>c\<in>set (first_space_token line). \<not> is_ws c)"
  show "cleanup_goneBranches protectedBranches text =
      spec_candidates (\<lambda>name. JStr name \<in> set protectedBranches) text"
    by (simp only: cleanup_goneBranches_alt spec_candidates_def map_tokens_agree[OF h])
qed

text \<open>
  The hypothesis of the last part holds for the specification's own scenario, and the
  candidate list is \<^verbatim>\<open>["feature-x"]\<close>.
\<close>

theorem goneBranches_first_space_token_witness:
  "clean_goneBranches (js ''feature-x  abc123 [origin/feature-x: gone] msg'') = [js ''feature-x'']
   \<and> clean_goneBranches (js ''feature-x  abc123 [origin/feature-x: gone] msg'') =
       spec_candidates (\<lambda>name. name \<in> set clean_protectedBranches)
         (js ''feature-x  abc123 [origin/feature-x: gone] msg'')
   \<and> cleanup_goneBranches [JStr (js ''main'')] (js ''feature-x  abc123 [origin/feature-x: gone] msg'') =
       spec_candidates (\<lambda>name. JStr name \<in> set [JStr (js ''main'')])
         (js ''feature-x  abc123 [origin/feature-x: gone] msg'')"
proof -
  let ?T = "js ''feature-x  abc123 [origin/feature-x: gone] msg''"
  have h: "\<forall>line\<in>set (split NL ?T). sublist gone_marker line \<longrightarrow>
         (\<forall>c\<in>set (first_space_token line). \<not> is_ws c)"
    by (simp add: first_space_token_def eval_str)
  have v: "clean_goneBranches ?T = [js ''feature-x'']"
    by (simp add: clean_goneBranches_def eval_str clean_protectedBranches_def)
  from goneBranches_first_space_token[of ?T "[JStr (js ''main'')]"] h v
  show ?thesis by blast
qed

text \<open>
  Claim C1 as stated fails on a line whose first token holds a tab: the scripts split
  the trimmed line at spaces only and return \<^verbatim>\<open>a<TAB>b\<close>, the first
  whitespace-delimited token is \<^verbatim>\<open>a\<close>.
\<close>

theorem goneBranches_tab_counterexample:
  "clean_goneBranches (js ''a'' @ [0x09] @ js ''b [origin/b: gone] msg'') \<noteq>
     spec_candidates (\<lambda>name. name \<in> set clean_protectedBranches)
       (js ''a'' @ [0x09] @ js ''b [origin/b: gone] msg'')
   \<and> cleanup_goneBranches cleanup_defaults (js ''a'' @ [0x09] @ js ''b [origin/b: gone] msg'') \<noteq>
     spec_candidates (\<lambda>name. JStr name \<in> set cleanup_defaults)
       (js ''a'' @ [0x09] @ js ''b [origin/b: gone] msg'')"
  by (simp add: clean_goneBranches_def cleanup_goneBranches_def spec_candidates_def
      first_ws_token_def eval_str clean_protectedBranches_def cleanup_defaults_def
      str_includes_sublist [symmetric])

lemma star_token:
  assumes "prefix (js ''* '') s"
  shows "hd (split SP s) = js ''*''"
proof -
  from assms obtain rest where "s = js ''* '' @ rest"
    by (auto simp: prefix_def)
  then show ?thesis
    by (simp add: hd_split js_def SP_def)
qed

lemma star_not_protected: "js ''*'' \<notin> set clean_protectedBranches"
  by (simp add: clean_protectedBranches_def js_def)

text \<open>
  Claim C9, as amended. Take a line of the status output that contains the marker
  \<^verbatim>\<open>: gone]\<close> and whose trimmed form starts with \<^verbatim>\<open>*\<close> and a space (git's mark of the
  checked-out branch), the lines before it and the lines after it. The token taken
  from the line is \<^verbatim>\<open>*\<close>, not the branch's name. The candidate list of
  \<^verbatim>\<open>git-clean.js\<close> is the candidates of the lines before, then \<^verbatim>\<open>*\<close>, then the
  candidates of the lines after. The candidate list of \<^verbatim>\<open>git-cleanup.js\<close> is the same
  with its own protected set, except that the line gives no candidate when that set
  (read from the configuration file) holds the string \<^verbatim>\<open>*\<close>.
\<close>

theorem current_branch_marker_token:
  assumes "split NL text = before @ line # after"
    and "str_includes line gone_marker"
    and "prefix (js ''* '') (trim line)"
  shows "hd (split SP (trim line)) = js ''*''
    \<and> clean_goneBranches text =
        filter (\<lambda>branch. branch \<notin> set clean_protectedBranches)
          (map (\<lambda>line. hd (split SP (trim line)))
            (filter (\<lambda>line. str_includes line gone_marker) before))
        @ [js ''*'']
        @ filter (\<lambda>branch. branch \<notin> set clean_protectedBranches)
          (map (\<lambda>line. hd (split SP (trim line)))
            (filter (\<lambda>line. str_includes line gone_marker) after))
    \<and> cleanup_goneBranches protectedBranches text =
        filter (\<lambda>branch. JStr branch \<notin> set protectedBranches)
          (map (\<lambda>line. hd (split SP (trim line)))
            (filter (\<lambda>line. str_includes line gone_marker) before))
        @ (if JStr (js ''*'') \<in> set protectedBranches then [] else [js ''*''])
        @ filter (\<lambda>branch. JStr branch \<notin> set protectedBranches)
          (map (\<lambda>line. hd (split SP (trim line)))
            (filter (\<lambda>line. str_includes line gone_marker) after))"
proof -
  have tok: "hd (split SP (trim line)) = js ''*''"
    using assms(3) by (rule star_token)
  show ?thesis
    using assms(2) star_not_protected
    by (simp add: clean_goneBranches_def cleanup_goneBranches_def assms(1) tok)
qed

text \<open>
  A listing of \<^verbatim>\<open>old\<close> and of the checked-out branch \<^verbatim>\<open>cur\<close>, both gone: the
  candidates are \<^verbatim>\<open>old\<close> and \<^verbatim>\<open>*\<close>.
\<close>

theorem current_branch_marker_token_witness:
  "hd (split SP (trim (js ''* cur bb [o/cur: gone] m''))) = js ''*''
   \<and> clean_goneBranches (js ''  old aa [o/old: gone] m'' @ [NL] @ js ''* cur bb [o/cur: gone] m'')
       = [js ''old'', js ''*'']
   \<and> cleanup_goneBranches cleanup_defaults
         (js ''  old aa [o/old: gone] m'' @ [NL] @ js ''* cur bb [o/cur: gone] m'')
       = [js ''old'', js ''*'']"
proof -
  let ?T = "js ''  old aa [o/old: gone] m'' @ [NL] @ js ''* cur bb [o/cur: gone] m''"
  have 1: "split NL ?T = [js ''  old aa [o/old: gone] m''] @ js ''* cur bb [o/cur: gone] m'' # []"
    by (simp add: eval_str)
  have 2: "str_includes (js ''* cur bb [o/cur: gone] m'') gone_marker"
    by (simp add: eval_str)
  have 3: "prefix (js ''* '') (trim (js ''* cur bb [o/cur: gone] m''))"
    by (simp add: eval_str)
  have 4: "filter (\<lambda>branch. branch \<notin> set clean_protectedBranches)
          (map (\<lambda>line. hd (split SP (trim line)))
            (filter (\<lambda>line. str_includes line gone_marker) [js ''  old aa [o/old: gone] m'']))
        = [js ''old'']"
    by (simp add: clean_protectedBranches_def eval_str)
  have 5: "filter (\<lambda>branch. JStr branch \<notin> set cleanup_defaults)
          (map (\<lambda>line. hd (split SP (trim line)))
            (filter (\<lambda>line. str_includes line gone_marker) [js ''  old aa [o/old: gone] m'']))
        = [js ''old'']"
    by (simp add: cleanup_defaults_def eval_str)
  have 6: "JStr (js ''*'') \<notin> set cleanup_defaults"
    by (simp add: cleanup_defaults_def js_def)
  from current_branch_marker_token[OF 1 2 3, of cleanup_defaults] 4 5 6
  show ?thesis by simp
qed

text \<open>
  Claim C9 as stated fails for \<^verbatim>\<open>git-cleanup.js\<close> when the configuration protects
  \<^verbatim>\<open>*\<close>: the line has the marker and starts with \<^verbatim>\<open>*\<close> and a space, and the
  classifier yields no candidate.
\<close>

theorem star_protected_counterexample:
  "str_includes (js ''* cur bb [o/cur: gone] m'') gone_marker
   \<and> prefix (js ''* '') (trim (js ''* cur bb [o/cur: gone] m''))
   \<and> cleanup_goneBranches [JStr (js ''*'')] (js ''* cur bb [o/cur: gone] m'') = []"
  by (simp add: cleanup_goneBranches_def eval_str)

lemma filter_conj_eq_iff:
  "filter P xs = filter (\<lambda>x. P x \<and> R x) xs \<longleftrightarrow> (\<forall>x\<in>set xs. P x \<longrightarrow> R x)"
proof (induction xs)
  case Nil
  then show ?case by simp
next
  case (Cons x xs)
  have len: "length (filter (\<lambda>x. P x \<and> R x) xs) \<le> length (filter P xs)"
    by (induction xs) auto
  show ?case
  proof (cases "P x \<and> \<not> R x")
    case True
    have "x # filter P xs \<noteq> filter (\<lambda>x. P x \<and> R x) xs"
    proof
      assume "x # filter P xs = filter (\<lambda>x. P x \<and> R x) xs"
      then have "length (x # filter P xs) = length (filter (\<lambda>x. P x \<and> R x) xs)"
        by (simp only:)
      with len show False by simp
    qed
    with True show ?thesis by auto
  next
    case False
    with Cons show ?thesis by auto
  qed
qed

lemma cleanup_default_filter:
  "(JStr b \<notin> set cleanup_defaults) =
   (b \<notin> set clean_protectedBranches \<and> b \<notin> {js ''prod'', js ''production''})"
  by (auto simp: cleanup_defaults_def clean_protectedBranches_def)

lemma prod_not_clean_protected:
  "b \<in> {js ''prod'', js ''production''} \<Longrightarrow> b \<notin> set clean_protectedBranches"
  by (auto simp: clean_protectedBranches_def js_def)

text \<open>
  Claim C10. With the built-in lists (\<^verbatim>\<open>git-cleanup.js\<close> protects \<^verbatim>\<open>prod\<close> and
  \<^verbatim>\<open>production\<close> on top of the four names of \<^verbatim>\<open>git-clean.js\<close>) the two
  classifiers return the same candidate list exactly for the texts in which no line
  with the marker has \<^verbatim>\<open>prod\<close> or \<^verbatim>\<open>production\<close> as its token; on every other
  text the two lists differ.
\<close>

theorem default_classifiers_agree_iff:
  "clean_goneBranches text = cleanup_goneBranches cleanup_defaults text \<longleftrightarrow>
   \<not> (\<exists>line\<in>set (split NL text). str_includes line gone_marker \<and>
        hd (split SP (trim line)) \<in> {js ''prod'', js ''production''})"
proof -
  let ?toks = "map (\<lambda>line. hd (split SP (trim line)))
                 (filter (\<lambda>line. str_includes line gone_marker) (split NL text))"
  have "clean_goneBranches text = cleanup_goneBranches cleanup_defaults text \<longleftrightarrow>
        filter (\<lambda>b. b \<notin> set clean_protectedBranches) ?toks =
        filter (\<lambda>b. b \<notin> set clean_protectedBranches \<and> b \<notin> {js ''prod'', js ''production''}) ?toks"
    by (simp only: clean_goneBranches_def cleanup_goneBranches_def cleanup_default_filter)
  also have "\<dots> \<longleftrightarrow> (\<forall>b\<in>set ?toks. b \<notin> set clean_protectedBranches \<longrightarrow>
        b \<notin> {js ''prod'', js ''production''})"
    by (rule filter_conj_eq_iff)
  also have "\<dots> \<longleftrightarrow> (\<forall>b\<in>set ?toks. b \<notin> {js ''prod'', js ''production''})"
    using prod_not_clean_protected by blast
  also have "\<dots> \<longleftrightarrow> \<not> (\<exists>line\<in>set (split NL text). str_includes line gone_marker \<and>
        hd (split SP (trim line)) \<in> {js ''prod'', js ''production''})"
    by auto
  finally show ?thesis .
qed

theorem default_classifiers_agree_iff_witness:
  "clean_goneBranches (js ''  prod abc123 [origin/prod: gone] msg'') \<noteq>
     cleanup_goneBranches cleanup_defaults (js ''  prod abc123 [origin/prod: gone] msg'')
   \<and> clean_goneBranches (js ''  feature-x abc123 [origin/feature-x: gone] msg'') =
     cleanup_goneBranches cleanup_defaults (js ''  feature-x abc123 [origin/feature-x: gone] msg'')"
proof -
  have 1: "\<exists>line\<in>set (split NL (js ''  prod abc123 [origin/prod: gone] msg'')).
      str_includes line gone_marker \<and> hd (split SP (trim line)) \<in> {js ''prod'', js ''production''}"
    by (simp add: eval_str)
  have 2: "\<not> (\<exists>line\<in>set (split NL (js ''  feature-x abc123 [origin/feature-x: gone] msg'')).
      str_includes line gone_marker \<and> hd (split SP (trim line)) \<in> {js ''prod'', js ''production''})"
    by (simp add: eval_str)
  from 1 2 default_classifiers_agree_iff[of "js ''  prod abc123 [origin/prod: gone] msg''"]
    default_classifiers_agree_iff[of "js ''  feature-x abc123 [origin/feature-x: gone] msg''"]
  show ?thesis by blast
qed

section \<open>The protected branches\<close>

lemma truthy_isArray_elements:
  "(truthy field \<and> Array_isArray field) = (\<exists>xs. field = Some (JArr xs))"
  by (cases field rule: Array_isArray.cases) auto

lemma console_pair [simp]: "console l m (w, tr) = (w, tr @ [Console l m])"
  by (simp add: console_def)

lemma getProtectedBranches_result:
  "fst (getProtectedBranches S st) =
     (case config_array S (fst st) of Some xs \<Rightarrow> xs | None \<Rightarrow> cleanup_defaults)"
proof (cases "existsSync S (fst st)")
  case False
  then show ?thesis
    by (simp add: getProtectedBranches_def getProtectedBranches_try_def config_array_def)
next
  case True
  show ?thesis
  proof (cases "readFileSync S (fst st)")
    case (Inl e)
    with True show ?thesis
      by (simp add: getProtectedBranches_def getProtectedBranches_try_def config_array_def)
  next
    case (Inr contents)
    show ?thesis
    proof (cases "JSON_parse S contents")
      case (Inl e)
      with True Inr show ?thesis
        by (simp add: getProtectedBranches_def getProtectedBranches_try_def config_array_def)
    next
      case parsed: (Inr config)
      show ?thesis
      proof (cases config)
        case (JObj kvs)
        show ?thesis
        proof (cases "\<exists>xs. map_of kvs (js ''protectedBranches'') = Some (JArr xs)")
          case True
          then obtain xs where "map_of kvs (js ''protectedBranches'') = Some (JArr xs)" by blast
          with \<open>existsSync S (fst st)\<close> Inr parsed JObj show ?thesis
            by (simp add: getProtectedBranches_def getProtectedBranches_try_def config_array_def)
        next
          case False
          moreover from False have "(case map_of kvs (js ''protectedBranches'') of
              Some (JArr xs) \<Rightarrow> Some xs | _ \<Rightarrow> None) = None"
            by (auto split: option.splits json.splits)
          ultimately show ?thesis
            using \<open>existsSync S (fst st)\<close> Inr parsed JObj
            by (simp add: getProtectedBranches_def getProtectedBranches_try_def config_array_def
                truthy_isArray_elements)
        qed
      qed (use True Inr parsed in
            \<open>simp_all add: getProtectedBranches_def getProtectedBranches_try_def config_array_def\<close>)
    qed
  qed
qed

lemma getProtectedBranches_world: "fst (snd (getProtectedBranches S st)) = fst st"
  by (cases st)
    (auto simp: getProtectedBranches_def getProtectedBranches_try_def
      split: sum.splits prod.splits if_splits)

lemma getProtectedBranches_error:
  assumes "config_error S (fst st) = Some e"
  shows "getProtectedBranches S st =
     (cleanup_defaults,
      (fst st, snd st @ [Console ERROR (MsgCfgError (message e)), Console LOG MsgCfgFallback]))"
  using assms
  by (cases st)
    (auto simp: getProtectedBranches_def getProtectedBranches_try_def config_error_def
      split: sum.splits if_splits)

text \<open>
  Claim C8. \<^verbatim>\<open>getProtectedBranches\<close> returns the array of the configuration file's
  \<^verbatim>\<open>protectedBranches\<close> field when the file exists, reads and parses to an object
  with such an array-valued field, and the built-in list in every other case. It
  leaves the world as it is. A read or parse error is not fatal: the function logs the
  error and the fall-back warning, and returns the built-in list.
\<close>

theorem getProtectedBranches_config_or_defaults:
  "fst (getProtectedBranches S st) =
     (case config_array S (fst st) of Some xs \<Rightarrow> xs | None \<Rightarrow> cleanup_defaults)
   \<and> fst (snd (getProtectedBranches S st)) = fst st
   \<and> (\<forall>e. config_error S (fst st) = Some e \<longrightarrow>
        snd (snd (getProtectedBranches S st)) =
          snd st @ [Console ERROR (MsgCfgError (message e)), Console LOG MsgCfgFallback])"
  by (simp add: getProtectedBranches_result getProtectedBranches_world getProtectedBranches_error)

text \<open>
  A file that protects \<^verbatim>\<open>main\<close> and \<^verbatim>\<open>staging\<close> gives these two names; a file that
  does not parse gives the built-in list, after the two log lines.
\<close>

theorem getProtectedBranches_config_or_defaults_witness:
  "getProtectedBranches (config_sys config_text) ((), []) =
     ([JStr (js ''main''), JStr (js ''staging'')], ((), [Console LOG MsgCfgLoaded]))
   \<and> config_array (config_sys config_text) () = Some [JStr (js ''main''), JStr (js ''staging'')]
   \<and> config_error (config_sys (js ''{'')) () = Some syntax_error
   \<and> fst (getProtectedBranches (config_sys (js ''{'')) ((), [])) = cleanup_defaults
   \<and> snd (snd (getProtectedBranches (config_sys (js ''{'')) ((), []))) =
        [Console ERROR (MsgCfgError (js ''Unexpected token'')), Console LOG MsgCfgFallback]"
proof -
  have 1: "config_array (config_sys config_text) () = Some [JStr (js ''main''), JStr (js ''staging'')]"
    by (simp add: config_array_def config_sys_def)
  have 2: "config_error (config_sys (js ''{'')) () = Some syntax_error"
    by (simp add: config_error_def config_sys_def config_text_def js_def)
  have 3: "config_array (config_sys (js ''{'')) () = None"
    by (simp add: config_array_def config_sys_def config_text_def js_def)
  have 4: "snd (snd (getProtectedBranches (config_sys config_text) ((), []))) = [Console LOG MsgCfgLoaded]"
    by (simp add: getProtectedBranches_def getProtectedBranches_try_def config_sys_def)
  from getProtectedBranches_config_or_defaults[of "config_sys config_text" "((), [])"]
    getProtectedBranches_config_or_defaults[of "config_sys (js ''{'')" "((), [])"] 1 2 3 4
  show ?thesis
    by (simp add: syntax_error_def prod_eq_iff)
qed


section \<open>The deletion loop\<close>

lemma run_git_pair [simp]:
  "run_git S args (w, tr) =
     (fst (execFileSync S args w), (snd (execFileSync S args w), tr @ [Git args]))"
  by (simp add: run_git_def split: prod.splits)

lemma ask_confirm_pair [simp]:
  "ask_confirm S branch (w, tr) =
     (fst (prompt_confirm S branch w),
      (snd (prompt_confirm S branch w), tr @ [Confirm branch (fst (prompt_confirm S branch w))]))"
  by (simp add: ask_confirm_def split: prod.splits)

lemma ask_checkbox_pair [simp]:
  "ask_checkbox S choices (w, tr) =
     (fst (prompt_checkbox S choices w),
      (snd (prompt_checkbox S choices w), tr @ [Checkbox choices (fst (prompt_checkbox S choices w))]))"
  by (simp add: ask_checkbox_def split: prod.splits)

lemma log_stderr_pair [simp]:
  "log_stderr e (w, tr) =
     (w, tr @ (case stderr e of Some s \<Rightarrow> [Console ERROR (MsgStderr s)] | None \<Rightarrow> []))"
  by (simp add: log_stderr_def split: option.splits)

lemma clean_delete_branch_trace:
  "clean_delete_branch S branch (w, tr) =
     (fst (clean_delete_branch S branch (w, [])), tr @ snd (clean_delete_branch S branch (w, [])))"
  by (simp add: clean_delete_branch_def split: sum.splits)

lemma cleanup_delete_branch_trace:
  "cleanup_delete_branch S isDryRun branch (w, tr) =
     (fst (cleanup_delete_branch S isDryRun branch (w, [])),
      tr @ snd (cleanup_delete_branch S isDryRun branch (w, [])))"
  by (simp add: cleanup_delete_branch_def cleanup_try_delete_def cleanup_try_force_def
      split: sum.splits option.splits)

lemma clean_delete_all_trace:
  "clean_delete_all S sel (w, tr) =
     (fst (clean_delete_all S sel (w, [])), tr @ snd (clean_delete_all S sel (w, [])))"
proof (induction sel arbitrary: w tr)
  case Nil
  then show ?case by simp
next
  case (Cons branch rest)
  obtain w1 e1 where step: "clean_delete_branch S branch (w, []) = (w1, e1)"
    by (cases "clean_delete_branch S branch (w, [])")
  then have step': "clean_delete_branch S branch (w, tr) = (w1, tr @ e1)"
    using clean_delete_branch_trace[of S branch w tr] by simp
  show ?case
    using Cons.IH[of w1 "tr @ e1"] Cons.IH[of w1 e1] by (simp add: step step')
qed

lemma cleanup_delete_all_trace:
  "cleanup_delete_all S isDryRun sel (w, tr) =
     (fst (cleanup_delete_all S isDryRun sel (w, [])),
      tr @ snd (cleanup_delete_all S isDryRun sel (w, [])))"
proof (induction sel arbitrary: w tr)
  case Nil
  then show ?case by simp
next
  case (Cons branch rest)
  obtain w1 e1 where step: "cleanup_delete_branch S isDryRun branch (w, []) = (w1, e1)"
    by (cases "cleanup_delete_branch S isDryRun branch (w, [])")
  then have step': "cleanup_delete_branch S isDryRun branch (w, tr) = (w1, tr @ e1)"
    using cleanup_delete_branch_trace[of S isDryRun branch w tr] by simp
  show ?case
    using Cons.IH[of w1 "tr @ e1"] Cons.IH[of w1 e1] by (simp add: step step')
qed

lemma clean_delete_all_append:
  "clean_delete_all S (xs @ ys) st = clean_delete_all S ys (clean_delete_all S xs st)"
  by (induction xs arbitrary: st) simp_all

lemma cleanup_delete_all_append:
  "cleanup_delete_all S isDryRun (xs @ ys) st =
     cleanup_delete_all S isDryRun ys (cleanup_delete_all S isDryRun xs st)"
  by (induction xs arbitrary: st) simp_all

lemma clean_delete_all_split:
  "snd (clean_delete_all S (before @ branch # after) (w, [])) =
     snd (clean_delete_all S before (w, []))
     @ snd (clean_delete_branch S branch (fst (clean_delete_all S before (w, [])), []))
     @ snd (clean_delete_all S after
         (fst (clean_delete_branch S branch (fst (clean_delete_all S before (w, [])), [])), []))"
proof -
  obtain w1 e1 where 1: "clean_delete_all S before (w, []) = (w1, e1)"
    by (cases "clean_delete_all S before (w, [])")
  obtain w2 e2 where 2: "clean_delete_branch S branch (w1, []) = (w2, e2)"
    by (cases "clean_delete_branch S branch (w1, [])")
  have "clean_delete_branch S branch (w1, e1) = (w2, e1 @ e2)"
    using clean_delete_branch_trace[of S branch w1 e1] by (simp add: 2)
  then show ?thesis
    using clean_delete_all_trace[of S after w2 "e1 @ e2"]
    by (simp add: clean_delete_all_append 1 2)
qed

lemma cleanup_delete_all_split:
  "snd (cleanup_delete_all S d (before @ branch # after) (w, [])) =
     snd (cleanup_delete_all S d before (w, []))
     @ snd (cleanup_delete_branch S d branch (fst (cleanup_delete_all S d before (w, [])), []))
     @ snd (cleanup_delete_all S d after
         (fst (cleanup_delete_branch S d branch (fst (cleanup_delete_all S d before (w, [])), [])), []))"
proof -
  obtain w1 e1 where 1: "cleanup_delete_all S d before (w, []) = (w1, e1)"
    by (cases "cleanup_delete_all S d before (w, [])")
  obtain w2 e2 where 2: "cleanup_delete_branch S d branch (w1, []) = (w2, e2)"
    by (cases "cleanup_delete_branch S d branch (w1, [])")
  have "cleanup_delete_branch S d branch (w1, e1) = (w2, e1 @ e2)"
    using cleanup_delete_branch_trace[of S d branch w1 e1] by (simp add: 2)
  then show ?thesis
    using cleanup_delete_all_trace[of S d after w2 "e1 @ e2"]
    by (simp add: cleanup_delete_all_append 1 2)
qed

lemma clean_confirm_prompts:
  "confirm_prompts (snd (clean_delete_branch S branch (w, []))) =
     (if unmerged_failure S branch w then [branch] else [])"
  by (simp add: clean_delete_branch_def unmerged_failure_def confirm_prompts_def
      map_filter_simps split: sum.splits)

lemma cleanup_confirm_prompts:
  "confirm_prompts (snd (cleanup_delete_branch S isDryRun branch (w, []))) =
     (if \<not> isDryRun \<and> unmerged_failure S branch w then [branch] else [])"
  by (simp add: cleanup_delete_branch_def cleanup_try_delete_def cleanup_try_force_def
      unmerged_failure_def confirm_prompts_def map_filter_simps
      split: sum.splits option.splits)


lemma safe_delete_target_simps [simp]:
  "safe_delete_target (Git (delete_args branch)) = Some branch"
  "safe_delete_target (Git (force_delete_args branch)) = None"
  "safe_delete_target (Git rev_parse_args) = None"
  "safe_delete_target (Git fetch_args) = None"
  "safe_delete_target (Git branch_vv_args) = None"
  by (simp_all add: delete_args_def force_delete_args_def rev_parse_args_def fetch_args_def
      branch_vv_args_def js_def)

declare safe_delete_target.simps [simp del]

lemma safe_delete_target_other [simp]:
  "safe_delete_target (Console l m) = None"
  "safe_delete_target (Checkbox choices answer) = None"
  "safe_delete_target (Confirm branch a) = None"
  by (simp_all add: safe_delete_target.simps)

lemma safe_deletes_simps [simp]:
  "safe_deletes [] = []"
  "safe_deletes (e # tr) = (case safe_delete_target e of Some b \<Rightarrow> b # safe_deletes tr | None \<Rightarrow> safe_deletes tr)"
  "safe_deletes (tr @ tr') = safe_deletes tr @ safe_deletes tr'"
  by (simp_all add: safe_deletes_def map_filter_def split: option.splits)

lemma clean_branch_safe_deletes:
  "safe_deletes (snd (clean_delete_branch S branch (w, []))) = [branch]"
  by (simp add: clean_delete_branch_def split: sum.splits)

lemma cleanup_branch_safe_deletes:
  "safe_deletes (snd (cleanup_delete_branch S False branch (w, []))) = [branch]"
  by (simp add: cleanup_delete_branch_def cleanup_try_delete_def cleanup_try_force_def
      split: sum.splits option.splits)

lemma clean_loop_safe_deletes:
  "safe_deletes (snd (clean_delete_all S sel (w, []))) = sel"
proof (induction sel arbitrary: w)
  case Nil
  then show ?case by simp
next
  case (Cons branch rest)
  obtain w1 e1 where step: "clean_delete_branch S branch (w, []) = (w1, e1)"
    by (cases "clean_delete_branch S branch (w, [])")
  have "safe_deletes e1 = [branch]"
    using clean_branch_safe_deletes[of S branch w] by (simp add: step)
  then show ?case
    using Cons.IH[of w1] clean_delete_all_trace[of S rest w1 e1] by (simp add: step)
qed

lemma cleanup_loop_safe_deletes:
  "safe_deletes (snd (cleanup_delete_all S False sel (w, []))) = sel"
proof (induction sel arbitrary: w)
  case Nil
  then show ?case by simp
next
  case (Cons branch rest)
  obtain w1 e1 where step: "cleanup_delete_branch S False branch (w, []) = (w1, e1)"
    by (cases "cleanup_delete_branch S False branch (w, [])")
  have "safe_deletes e1 = [branch]"
    using cleanup_branch_safe_deletes[of S branch w] by (simp add: step)
  then show ?case
    using Cons.IH[of w1] cleanup_delete_all_trace[of S False rest w1 e1] by (simp add: step)
qed

text \<open>
  Claim C3. Take any branch of the selection, the branches before it and after it. The
  trace of the loop is the trace of the branches before, then the trace of this
  branch's iteration, then the trace of the rest. In this branch's iteration the
  force-delete question is asked exactly once, for this branch, when its non-forcing
  delete fails with a message that contains \<^verbatim>\<open>not fully merged\<close>, and is not asked
  otherwise (the delete succeeds, fails with another message, or, in
  \<^verbatim>\<open>git-cleanup.js\<close>, is not run because of \<^verbatim>\<open>--dry-run\<close>).
\<close>

theorem force_prompt_iff_unmerged:
  "(let w1 = fst (clean_delete_all S before (w, []));
        step = clean_delete_branch S branch (w1, [])
    in snd (clean_delete_all S (before @ branch # after) (w, [])) =
         snd (clean_delete_all S before (w, [])) @ snd step
           @ snd (clean_delete_all S after (fst step, []))
       \<and> confirm_prompts (snd step) = (if unmerged_failure S branch w1 then [branch] else []))
   \<and> (let w1 = fst (cleanup_delete_all S isDryRun before (w, []));
        step = cleanup_delete_branch S isDryRun branch (w1, [])
    in snd (cleanup_delete_all S isDryRun (before @ branch # after) (w, [])) =
         snd (cleanup_delete_all S isDryRun before (w, [])) @ snd step
           @ snd (cleanup_delete_all S isDryRun after (fst step, []))
       \<and> confirm_prompts (snd step) =
           (if \<not> isDryRun \<and> unmerged_failure S branch w1 then [branch] else []))"
  unfolding Let_def
  by (intro conjI clean_delete_all_split cleanup_delete_all_split clean_confirm_prompts
      cleanup_confirm_prompts)

lemmas eval_demo = demo_sys_def demo_git_def demo_line_def unmerged_error_def not_found_error_def
  delete_args_def force_delete_args_def branch_vv_args_def not_fully_merged_def js_def

text \<open>
  In the example repository the question is asked for \<^verbatim>\<open>wip\<close> and not for \<^verbatim>\<open>old\<close>.
\<close>

theorem force_prompt_iff_unmerged_witness:
  "confirm_prompts (snd (clean_delete_branch (demo_sys False) (js ''wip'') ([js ''wip''], []))) = [js ''wip'']
   \<and> confirm_prompts (snd (clean_delete_branch (demo_sys False) (js ''old'') ([js ''old''], []))) = []
   \<and> confirm_prompts (snd (cleanup_delete_branch (demo_sys False) False (js ''wip'') ([js ''wip''], []))) = [js ''wip'']
   \<and> confirm_prompts (snd (cleanup_delete_branch (demo_sys False) True (js ''wip'') ([js ''wip''], []))) = []"
proof -
  have 1: "unmerged_failure (demo_sys False) (js ''wip'') [js ''wip'']"
    by (simp add: unmerged_failure_def eval_demo)
  have 2: "\<not> unmerged_failure (demo_sys False) (js ''old'') [js ''old'']"
    by (simp add: unmerged_failure_def eval_demo)
  from force_prompt_iff_unmerged[of "demo_sys False" "[]" "[js ''wip'']" "js ''wip''" "[]" False]
    force_prompt_iff_unmerged[of "demo_sys False" "[]" "[js ''old'']" "js ''old''" "[]" True]
    force_prompt_iff_unmerged[of "demo_sys False" "[]" "[js ''wip'']" "js ''wip''" "[]" True]
    1 2
  show ?thesis by (simp add: Let_def)
qed

text \<open>
  Claim C5. When the non-forcing delete of a branch fails as not fully merged and the
  user declines the force delete, the iteration for that branch is: the failed delete,
  the warning, the question, the line that reports the branch as skipped. No other
  command is run, so the world is the one the failed delete and the question left; if
  these two leave the listing of \<^verbatim>\<open>git branch -vv\<close> as it was (a failed delete removes
  nothing), the branch is still in a later listing.
\<close>

theorem declined_force_delete_skips:
  assumes "execFileSync S (delete_args branch) w = (Inl err, w1)"
    and "str_includes (message err) not_fully_merged"
    and "prompt_confirm S branch w1 = (False, w2)"
  shows "clean_delete_branch S branch (w, tr) =
      (w2, tr @ [Git (delete_args branch), Console WARN (MsgUnmerged branch),
                 Confirm branch False, Console LOG (MsgSkipped branch)])
    \<and> cleanup_delete_branch S False branch (w, tr) =
      (w2, tr @ [Git (delete_args branch), Console WARN (MsgUnmerged branch),
                 Confirm branch False, Console LOG (MsgSkipped branch)])
    \<and> (listing S w1 = listing S w \<and> listing S w2 = listing S w1 \<longrightarrow>
         listing S (fst (clean_delete_branch S branch (w, tr))) = listing S w
         \<and> listing S (fst (cleanup_delete_branch S False branch (w, tr))) = listing S w)"
  using assms
  by (simp add: clean_delete_branch_def cleanup_delete_branch_def cleanup_try_delete_def)

text \<open>In the example repository \<^verbatim>\<open>wip\<close> is declined and stays listed.\<close>

theorem declined_force_delete_skips_witness:
  "clean_delete_branch (demo_sys False) (js ''wip'') ([js ''wip''], []) =
      ([js ''wip''], [Git (delete_args (js ''wip'')), Console WARN (MsgUnmerged (js ''wip'')),
                 Confirm (js ''wip'') False, Console LOG (MsgSkipped (js ''wip''))])
   \<and> listing (demo_sys False) (fst (cleanup_delete_branch (demo_sys False) False (js ''wip'') ([js ''wip''], [])))
       = Inr (demo_line (js ''wip''))"
proof -
  have 1: "execFileSync (demo_sys False) (delete_args (js ''wip'')) [js ''wip''] =
      (Inl unmerged_error, [js ''wip''])"
    by (simp add: demo_sys_def demo_git_def delete_args_def branch_vv_args_def js_def)
  have 2: "str_includes (message unmerged_error) not_fully_merged"
    by (simp add: unmerged_error_def not_fully_merged_def js_def)
  have 3: "prompt_confirm (demo_sys False) (js ''wip'') [js ''wip''] = (False, [js ''wip''])"
    by (simp add: demo_sys_def)
  have 4: "listing (demo_sys False) [js ''wip''] = Inr (demo_line (js ''wip''))"
    by (simp add: listing_def demo_sys_def demo_git_def)
  from declined_force_delete_skips[OF 1 2 3, of "[]"] 4
  show ?thesis by simp
qed


section \<open>The steps before the selection prompt: facts\<close>

lemma getProtectedBranches_trace:
  "getProtectedBranches S (w, tr) =
     (fst (getProtectedBranches S (w, [])), (w, tr @ snd (snd (getProtectedBranches S (w, [])))))"
  by (simp add: getProtectedBranches_def getProtectedBranches_try_def split: sum.splits)

lemma is_delete_simps [simp]:
  "is_delete (Git (delete_args branch))"
  "is_delete (Git (force_delete_args branch))"
  "\<not> is_delete (Git rev_parse_args)"
  "\<not> is_delete (Git fetch_args)"
  "\<not> is_delete (Git branch_vv_args)"
  by (simp_all add: delete_args_def force_delete_args_def rev_parse_args_def fetch_args_def
      branch_vv_args_def)

declare is_delete.simps(1) [simp del]

lemma getProtectedBranches_quiet:
  "list_all is_quiet (snd (snd (getProtectedBranches S (w, []))))"
  by (simp add: getProtectedBranches_def getProtectedBranches_try_def split: sum.splits)

lemma clean_listing_quiet: "list_all is_quiet (snd (snd (clean_listing S w)))"
  by (simp add: clean_listing_def Let_def split: sum.splits)

lemma cleanup_listing_quiet: "list_all is_quiet (snd (snd (cleanup_listing S w)))"
proof -
  have "list_all is_quiet (snd (snd (getProtectedBranches S (w', []))))" for w'
    by (rule getProtectedBranches_quiet)
  then show ?thesis
    by (simp add: cleanup_listing_def Let_def getProtectedBranches_trace[of S _ "_ # _"]
        split_beta split: sum.splits option.splits)
qed


lemma quiet_facts:
  assumes "list_all is_quiet tr"
  shows "safe_deletes tr = []"
    and "filter is_delete tr = []"
    and "filter is_prompt tr = []"
    and "Checkbox choices answer \<notin> set tr"
    and "takeWhile (\<lambda>e. \<not> is_delete e) (tr @ tr') = tr @ takeWhile (\<lambda>e. \<not> is_delete e) tr'"
proof -
  have none: "safe_delete_target e = None" if "\<not> is_delete e" for e
    using that
    by (cases e) (auto simp: safe_delete_target.simps is_delete.simps split: list.splits)
  show "safe_deletes tr = []"
    using assms none by (induction tr) auto
  show "filter is_delete tr = []"
    using assms by (induction tr) auto
  show "filter is_prompt tr = []"
    using assms by (induction tr) auto
  show "Checkbox choices answer \<notin> set tr"
    using assms by (induction tr) auto
  show "takeWhile (\<lambda>e. \<not> is_delete e) (tr @ tr') = tr @ takeWhile (\<lambda>e. \<not> is_delete e) tr'"
    using assms by (induction tr) auto
qed

lemma clean_main_shape:
  "clean_main S (w, []) =
     (case clean_listing S w of
        (Inl out, st) \<Rightarrow> (out, st)
      | (Inr gone, (w1, pre)) \<Rightarrow>
          (case prompt_checkbox S gone w1 of
             (sel, w2) \<Rightarrow>
               if sel = [] then
                 (Exited 0, (w2, pre @ [Checkbox gone [], Console LOG MsgCancelled]))
               else
                 (Returned,
                  (fst (clean_delete_all S sel (w2, [])),
                   pre @ [Checkbox gone sel, Console LOG MsgBlank]
                     @ snd (clean_delete_all S sel (w2, [])) @ [Console LOG MsgComplete]))))"
  by (simp add: clean_main_def clean_listing_def Let_def split_beta
      clean_delete_all_trace[of S _ _ "_ # _"] split: sum.splits)

lemma cleanup_main_shape:
  "cleanup_main S argv (w, []) =
     (case cleanup_listing S w of
        (Inl out, (w1, pre)) \<Rightarrow>
          (out, (w1, (if dry_run_flag \<in> set argv then [Console LOG MsgDryRunBanner] else []) @ pre))
      | (Inr gone, (w1, pre)) \<Rightarrow>
          (case prompt_checkbox S gone w1 of
             (sel, w2) \<Rightarrow>
               if sel = [] then
                 (Exited 0,
                  (w2, (if dry_run_flag \<in> set argv then [Console LOG MsgDryRunBanner] else [])
                       @ pre @ [Checkbox gone [], Console LOG MsgCancelled]))
               else
                 (Returned,
                  (fst (cleanup_delete_all S (dry_run_flag \<in> set argv) sel (w2, [])),
                   (if dry_run_flag \<in> set argv then [Console LOG MsgDryRunBanner] else [])
                     @ pre @ [Checkbox gone sel, Console LOG MsgBlank]
                     @ snd (cleanup_delete_all S (dry_run_flag \<in> set argv) sel (w2, []))
                     @ [Console LOG MsgComplete]))))"
  by (simp add: cleanup_main_def cleanup_listing_def Let_def split_beta
      cleanup_delete_all_trace[of S _ _ _ "_ # _"] getProtectedBranches_trace[of S _ "_ # _"]
      split: sum.splits option.splits)


section \<open>Whole runs\<close>

lemma clean_branch_no_checkbox:
  "Checkbox choices answer \<notin> set (snd (clean_delete_branch S branch (w, [])))"
  by (simp add: clean_delete_branch_def split: sum.splits)

lemma cleanup_branch_no_checkbox:
  "Checkbox choices answer \<notin> set (snd (cleanup_delete_branch S d branch (w, [])))"
  by (simp add: cleanup_delete_branch_def cleanup_try_delete_def cleanup_try_force_def
      split: sum.splits option.splits)

lemma clean_loop_no_checkbox:
  "Checkbox choices answer \<notin> set (snd (clean_delete_all S sel (w, [])))"
proof (induction sel arbitrary: w)
  case Nil
  then show ?case by simp
next
  case (Cons branch rest)
  obtain w1 e1 where step: "clean_delete_branch S branch (w, []) = (w1, e1)"
    by (cases "clean_delete_branch S branch (w, [])")
  have "Checkbox choices answer \<notin> set e1"
    using clean_branch_no_checkbox[of choices answer S branch w] by (simp add: step)
  then show ?case
    using Cons.IH[of w1] clean_delete_all_trace[of S rest w1 e1] by (simp add: step)
qed

lemma cleanup_loop_no_checkbox:
  "Checkbox choices answer \<notin> set (snd (cleanup_delete_all S d sel (w, [])))"
proof (induction sel arbitrary: w)
  case Nil
  then show ?case by simp
next
  case (Cons branch rest)
  obtain w1 e1 where step: "cleanup_delete_branch S d branch (w, []) = (w1, e1)"
    by (cases "cleanup_delete_branch S d branch (w, [])")
  have "Checkbox choices answer \<notin> set e1"
    using cleanup_branch_no_checkbox[of choices answer S d branch w] by (simp add: step)
  then show ?case
    using Cons.IH[of w1] cleanup_delete_all_trace[of S d rest w1 e1] by (simp add: step)
qed



lemma run_job_clean_catch [simp]:
  "run_job (clean_catch err) [] (w, tr) = (1, (w, tr @ [Console ERROR (MsgUnexpected err)]))"
  by (simp add: clean_catch_def)

lemma run_job_cleanup_catch [simp]:
  "run_job (cleanup_catch err) [] st = (1, st)"
  by (simp add: cleanup_catch_def)

lemma clean_run_selection:
  assumes "Checkbox choices sel \<in> set (snd (snd (clean_run S w)))"
  shows "safe_deletes (snd (snd (clean_run S w))) = sel \<and> fst (clean_run S w) = 0
    \<and> (sel \<noteq> [] \<longrightarrow> last (snd (snd (clean_run S w))) = Console LOG MsgComplete)"
proof -
  obtain r w1 pre where L: "clean_listing S w = (r, (w1, pre))"
    by (metis surj_pair)
  have quiet: "list_all is_quiet pre"
    using clean_listing_quiet[of S w] by (simp add: L)
  note q = quiet_facts[OF quiet]
  show ?thesis
  proof (cases r)
    case (Inl out)
    then have "Checkbox choices sel \<notin> set (snd (snd (clean_run S w)))"
      using q(4) by (cases out) (simp_all add: clean_run_def clean_main_shape L)
    with assms show ?thesis by simp
  next
    case (Inr gone)
    obtain sel0 w2 where P: "prompt_checkbox S gone w1 = (sel0, w2)"
      by (metis surj_pair)
    show ?thesis
    proof (cases "sel0 = []")
      case True
      with assms Inr P L q show ?thesis
        by (simp add: clean_run_def clean_main_shape)
    next
      case False
      with assms Inr P L q show ?thesis
        by (simp add: clean_run_def clean_main_shape clean_loop_no_checkbox
            clean_loop_safe_deletes)
    qed
  qed
qed

lemma cleanup_run_selection:
  assumes "dry_run_flag \<notin> set argv"
    and "Checkbox choices sel \<in> set (snd (snd (cleanup_run S argv w)))"
  shows "safe_deletes (snd (snd (cleanup_run S argv w))) = sel \<and> fst (cleanup_run S argv w) = 0
    \<and> (sel \<noteq> [] \<longrightarrow> last (snd (snd (cleanup_run S argv w))) = Console LOG MsgComplete)"
proof -
  obtain r w1 pre where L: "cleanup_listing S w = (r, (w1, pre))"
    by (metis surj_pair)
  have quiet: "list_all is_quiet pre"
    using cleanup_listing_quiet[of S w] by (simp add: L)
  note q = quiet_facts[OF quiet]
  show ?thesis
  proof (cases r)
    case (Inl out)
    then have "Checkbox choices sel \<notin> set (snd (snd (cleanup_run S argv w)))"
      using q(4) assms(1) by (cases out) (simp_all add: cleanup_run_def cleanup_main_shape L)
    with assms show ?thesis by simp
  next
    case (Inr gone)
    obtain sel0 w2 where P: "prompt_checkbox S gone w1 = (sel0, w2)"
      by (metis surj_pair)
    show ?thesis
    proof (cases "sel0 = []")
      case True
      with assms Inr P L q show ?thesis
        by (simp add: cleanup_run_def cleanup_main_shape)
    next
      case False
      with assms Inr P L q show ?thesis
        by (simp add: cleanup_run_def cleanup_main_shape cleanup_loop_no_checkbox
            cleanup_loop_safe_deletes)
    qed
  qed
qed

text \<open>
  Claim C4. Whatever each delete command does (it succeeds, it fails as not fully
  merged, it fails otherwise, the force delete fails) and whatever the user answers,
  the loop runs the non-forcing delete of every branch of the selection, in the order
  of the selection. For a whole run (without \<^verbatim>\<open>--dry-run\<close> in \<^verbatim>\<open>git-cleanup.js\<close>):
  when the selection prompt returned the selection \<open>sel\<close>, the non-forcing deletes of
  the run are exactly those of \<open>sel\<close>, in order, the exit status is 0, and after a
  non-empty selection the last line is the completion message.
\<close>

theorem batch_never_aborts:
  "safe_deletes (snd (clean_delete_all S sel (w, []))) = sel
   \<and> safe_deletes (snd (cleanup_delete_all S False sel (w, []))) = sel
   \<and> (Checkbox choices sel \<in> set (snd (snd (clean_run S w))) \<longrightarrow>
        safe_deletes (snd (snd (clean_run S w))) = sel \<and> fst (clean_run S w) = 0
        \<and> (sel \<noteq> [] \<longrightarrow> last (snd (snd (clean_run S w))) = Console LOG MsgComplete))
   \<and> (dry_run_flag \<notin> set argv \<and> Checkbox choices sel \<in> set (snd (snd (cleanup_run S argv w))) \<longrightarrow>
        safe_deletes (snd (snd (cleanup_run S argv w))) = sel \<and> fst (cleanup_run S argv w) = 0
        \<and> (sel \<noteq> [] \<longrightarrow> last (snd (snd (cleanup_run S argv w))) = Console LOG MsgComplete))"
  using clean_run_selection[of choices sel S w] cleanup_run_selection[of argv choices sel S w]
  by (simp add: clean_loop_safe_deletes cleanup_loop_safe_deletes)

lemmas eval_run = clean_run_def clean_main_def clean_delete_branch_def clean_goneBranches_def
  clean_protectedBranches_def cleanup_run_def cleanup_main_def cleanup_delete_branch_def
  cleanup_try_delete_def cleanup_try_force_def cleanup_goneBranches_def cleanup_defaults_def
  getProtectedBranches_def getProtectedBranches_try_def rev_parse_args_def fetch_args_def
  dry_run_flag_def is_delete.simps eval_demo eval_str

lemma demo_clean_run:
  "clean_run (demo_sys False) [js ''wip'', js ''old''] =
     (0, ([js ''wip''],
       [Git rev_parse_args, Console LOG MsgFetching, Git fetch_args, Git branch_vv_args,
        Checkbox [js ''wip'', js ''old''] [js ''wip'', js ''old''], Console LOG MsgBlank,
        Git (delete_args (js ''wip'')), Console WARN (MsgUnmerged (js ''wip'')),
        Confirm (js ''wip'') False, Console LOG (MsgSkipped (js ''wip'')),
        Git (delete_args (js ''old'')), Console LOG (MsgDeleted (js ''old'')),
        Console LOG MsgComplete]))"
  by (simp add: eval_run)

lemma demo_cleanup_run:
  "cleanup_run (demo_sys True) [] [js ''wip'', js ''old''] =
     (0, ([],
       [Git rev_parse_args, Console LOG MsgFetching, Git fetch_args, Git branch_vv_args,
        Console LOG MsgCfgDefault,
        Checkbox [js ''wip'', js ''old''] [js ''wip'', js ''old''], Console LOG MsgBlank,
        Git (delete_args (js ''wip'')), Console WARN (MsgUnmerged (js ''wip'')),
        Confirm (js ''wip'') True, Git (force_delete_args (js ''wip'')),
        Console LOG (MsgForceDeleted (js ''wip'')),
        Git (delete_args (js ''old'')), Console LOG (MsgDeleted (js ''old'')),
        Console LOG MsgComplete]))"
  by (simp add: eval_run)



text \<open>
  In the example repository the delete of \<^verbatim>\<open>wip\<close> fails, and \<^verbatim>\<open>old\<close> is still
  processed after it.
\<close>

theorem batch_never_aborts_witness:
  "safe_deletes (snd (snd (clean_run (demo_sys False) [js ''wip'', js ''old'']))) = [js ''wip'', js ''old'']
   \<and> fst (clean_run (demo_sys False) [js ''wip'', js ''old'']) = 0
   \<and> last (snd (snd (clean_run (demo_sys False) [js ''wip'', js ''old'']))) = Console LOG MsgComplete
   \<and> safe_deletes (snd (snd (cleanup_run (demo_sys True) [] [js ''wip'', js ''old'']))) = [js ''wip'', js ''old'']
   \<and> fst (cleanup_run (demo_sys True) [] [js ''wip'', js ''old'']) = 0"
proof -
  have 1: "Checkbox [js ''wip'', js ''old''] [js ''wip'', js ''old'']
      \<in> set (snd (snd (clean_run (demo_sys False) [js ''wip'', js ''old''])))"
    by (simp add: demo_clean_run)
  have 2: "Checkbox [js ''wip'', js ''old''] [js ''wip'', js ''old'']
      \<in> set (snd (snd (cleanup_run (demo_sys True) [] [js ''wip'', js ''old''])))"
    by (simp add: demo_cleanup_run)
  have 3: "dry_run_flag \<notin> set []"
    by simp
  have 4: "[js ''wip'', js ''old''] \<noteq> []"
    by simp
  from batch_never_aborts[of "demo_sys False" "[js ''wip'', js ''old'']" "[js ''wip'', js ''old'']"
      "[js ''wip'', js ''old'']" "[]"]
    batch_never_aborts[of "demo_sys True" "[js ''wip'', js ''old'']" "[js ''wip'', js ''old'']"
      "[js ''wip'', js ''old'']" "[]"]
    1 2 3 4
  show ?thesis by blast
qed

lemma filter_is_delete_would [simp]:
  "filter is_delete (map (\<lambda>branch. Console LOG (MsgWouldDelete branch)) sel) = []"
  by (induction sel) simp_all




text \<open>
  Claim C6. When the repository check and the fetch succeed and the listing returns a
  text whose candidate list is empty, the run reports that the branches are clean,
  ends with exit status 0, and asks no question (and invokes no delete command).
\<close>

theorem empty_candidates_exit_zero:
  assumes "execFileSync S rev_parse_args w = (Inr out1, w1)"
    and "execFileSync S fetch_args w1 = (Inr out2, w2)"
    and "execFileSync S branch_vv_args w2 = (Inr text, w3)"
  shows "(clean_goneBranches text = [] \<longrightarrow>
        clean_run S w =
          (0, (w3, [Git rev_parse_args, Console LOG MsgFetching, Git fetch_args,
                    Git branch_vv_args, Console LOG MsgClean])))
    \<and> (cleanup_goneBranches (fst (getProtectedBranches S (w3, []))) text = [] \<longrightarrow>
        fst (cleanup_run S argv w) = 0
        \<and> fst (snd (cleanup_run S argv w)) = w3
        \<and> filter is_prompt (snd (snd (cleanup_run S argv w))) = []
        \<and> filter is_delete (snd (snd (cleanup_run S argv w))) = []
        \<and> last (snd (snd (cleanup_run S argv w))) = Console LOG MsgClean)"
proof (intro conjI impI)
  assume "clean_goneBranches text = []"
  with assms show "clean_run S w =
          (0, (w3, [Git rev_parse_args, Console LOG MsgFetching, Git fetch_args,
                    Git branch_vv_args, Console LOG MsgClean]))"
    by (simp add: clean_run_def clean_main_def)
next
  assume gone: "cleanup_goneBranches (fst (getProtectedBranches S (w3, []))) text = []"
  have L: "cleanup_listing S w =
      (Inl (Exited 0),
       (w3, [Git rev_parse_args, Console LOG MsgFetching, Git fetch_args, Git branch_vv_args]
            @ snd (snd (getProtectedBranches S (w3, []))) @ [Console LOG MsgClean]))"
    using assms gone
    by (simp add: cleanup_listing_def getProtectedBranches_trace[of S _ "_ # _"] split_beta)
  have quiet: "list_all is_quiet (snd (snd (cleanup_listing S w)))"
    by (rule cleanup_listing_quiet)
  note q = quiet_facts[OF quiet]
  have run: "cleanup_run S argv w =
      (0, (w3, (if dry_run_flag \<in> set argv then [Console LOG MsgDryRunBanner] else [])
               @ snd (snd (cleanup_listing S w))))"
    by (simp add: cleanup_run_def cleanup_main_shape L)
  show "fst (cleanup_run S argv w) = 0"
    by (simp add: run)
  show "fst (snd (cleanup_run S argv w)) = w3"
    by (simp add: run)
  show "filter is_prompt (snd (snd (cleanup_run S argv w))) = []"
    by (simp add: run q)
  show "filter is_delete (snd (snd (cleanup_run S argv w))) = []"
    by (simp add: run q)
  show "last (snd (snd (cleanup_run S argv w))) = Console LOG MsgClean"
    by (simp add: run L)
qed

text \<open>
  The specification's scenario: the only gone branch is \<^verbatim>\<open>main\<close>, which is protected.
\<close>

theorem empty_candidates_exit_zero_witness:
  "clean_run (demo_sys False) [js ''main''] =
     (0, ([js ''main''], [Git rev_parse_args, Console LOG MsgFetching, Git fetch_args,
                    Git branch_vv_args, Console LOG MsgClean]))
   \<and> fst (cleanup_run (demo_sys False) [] [js ''main'']) = 0
   \<and> filter is_prompt (snd (snd (cleanup_run (demo_sys False) [] [js ''main'']))) = []
   \<and> last (snd (snd (cleanup_run (demo_sys False) [] [js ''main'']))) = Console LOG MsgClean"
proof -
  have 1: "execFileSync (demo_sys False) rev_parse_args [js ''main''] = (Inr [], [js ''main''])"
    by (simp add: eval_demo rev_parse_args_def is_delete.simps)
  have 2: "execFileSync (demo_sys False) fetch_args [js ''main''] = (Inr [], [js ''main''])"
    by (simp add: eval_demo fetch_args_def is_delete.simps)
  have 3: "execFileSync (demo_sys False) branch_vv_args [js ''main''] =
      (Inr (demo_line (js ''main'')), [js ''main''])"
    by (simp add: demo_sys_def demo_git_def)
  have 4: "clean_goneBranches (demo_line (js ''main'')) = []"
    by (simp add: clean_goneBranches_def clean_protectedBranches_def demo_line_def eval_str)
  have 5: "cleanup_goneBranches (fst (getProtectedBranches (demo_sys False) ([js ''main''], [])))
      (demo_line (js ''main'')) = []"
    by (simp add: cleanup_goneBranches_def getProtectedBranches_def getProtectedBranches_try_def
        cleanup_defaults_def demo_sys_def demo_line_def eval_str)
  from empty_candidates_exit_zero[OF 1 2 3, of "[]"] 4 5
  show ?thesis by blast
qed

text \<open>
  Claim C7, where the code departs from it. When \<^verbatim>\<open>git branch -vv\<close> throws, \<^verbatim>\<open>main\<close>
  rejects. \<^verbatim>\<open>git-clean.js\<close> prints the error and exits with status 1.
  \<^verbatim>\<open>git-cleanup.js\<close> exits with status 1 and prints nothing: its handler prints from
  a callback of \<^verbatim>\<open>import('chalk')\<close>, and \<^verbatim>\<open>process.exit(1)\<close> ends the process before
  that callback runs.
\<close>

theorem cleanup_uncaught_error_silent:
  assumes "execFileSync S rev_parse_args w = (Inr out1, w1)"
    and "execFileSync S fetch_args w1 = (Inr out2, w2)"
    and "execFileSync S branch_vv_args w2 = (Inl err, w3)"
  shows "cleanup_run S argv w =
      (1, (w3, (if dry_run_flag \<in> set argv then [Console LOG MsgDryRunBanner] else [])
               @ [Git rev_parse_args, Console LOG MsgFetching, Git fetch_args,
                  Git branch_vv_args]))
    \<and> filter is_error_line (snd (snd (cleanup_run S argv w))) = []
    \<and> clean_run S w =
      (1, (w3, [Git rev_parse_args, Console LOG MsgFetching, Git fetch_args,
                Git branch_vv_args, Console ERROR (MsgUnexpected err)]))"
  using assms
  by (simp add: cleanup_run_def cleanup_main_def clean_run_def clean_main_def)

text \<open>The two scripts in a system whose \<^verbatim>\<open>git branch -vv\<close> throws.\<close>

theorem cleanup_uncaught_error_silent_witness:
  "cleanup_run broken_listing_sys [] () =
     (1, ((), [Git rev_parse_args, Console LOG MsgFetching, Git fetch_args, Git branch_vv_args]))
   \<and> filter is_error_line (snd (snd (cleanup_run broken_listing_sys [] ()))) = []
   \<and> clean_run broken_listing_sys () =
     (1, ((), [Git rev_parse_args, Console LOG MsgFetching, Git fetch_args, Git branch_vv_args,
               Console ERROR (MsgUnexpected listing_error)]))"
proof -
  have 1: "execFileSync broken_listing_sys rev_parse_args () = (Inr [], ())"
    by (simp add: broken_listing_sys_def rev_parse_args_def branch_vv_args_def js_def)
  have 2: "execFileSync broken_listing_sys fetch_args () = (Inr [], ())"
    by (simp add: broken_listing_sys_def fetch_args_def branch_vv_args_def js_def)
  have 3: "execFileSync broken_listing_sys branch_vv_args () = (Inl listing_error, ())"
    by (simp add: broken_listing_sys_def)
  from cleanup_uncaught_error_silent[OF 1 2 3, of "[]"]
  show ?thesis by simp
qed

end
